theory Spec2Isabelle
  imports Complex_Main "HOL-Library.AList" "HOL-Library.Char_ord" "HOL-Library.List_Lexorder"
    "HOL-Library.Sublist"
begin

section \<open>Data model\<close>

text \<open>
  The incident engine of \<^verbatim>\<open>src/utils/incident_detector.py\<close> over the record store of
  \<^verbatim>\<open>src/models/database.py\<close>.

  Times are \<^verbatim>\<open>datetime\<close> values, modelled as integer microseconds (the resolution of
  \<^verbatim>\<open>datetime\<close>); a \<^verbatim>\<open>timedelta\<close> is their difference. Python floats are modelled
  as exact reals. Python strings are \<open>string\<close>, compared lexicographically by character code
  as Python compares \<^verbatim>\<open>str\<close>.
\<close>

type_synonym datetime = int

datatype error = KeyError string | StoreError

text \<open>
  A ping result dictionary, with the keys the detector reads. A key read with
  \<^verbatim>\<open>.get(key, default)\<close> may be absent (\<open>None\<close>); \<^verbatim>\<open>d["target"]\<close> raises
  \<^verbatim>\<open>KeyError\<close> when absent.
\<close>

record ping_result =
  target :: "string option"
  is_reachable :: "bool option"
  packet_loss :: "real option"

record sensor_check =
  is_available :: "bool option"
  sensor_name :: "string option"
  sensor_ip :: "string option"

record wifi_data =
  interface :: "string option"
  is_connected :: "bool option"
  rssi :: "int option"

text \<open>The incident descriptor dictionary the classifiers build (\<^verbatim>\<open>incident_data\<close>).\<close>

record incident_data =
  data_incident_type :: string
  data_severity :: string
  data_description :: string
  data_affected_targets :: "string list"
  data_probable_cause :: "string option"

text \<open>A row of table \<^verbatim>\<open>incidents\<close> (class \<^verbatim>\<open>Incident\<close> of \<^verbatim>\<open>schema.py\<close>).\<close>

record incident =
  incident_id :: int
  start_time :: datetime
  end_time :: "datetime option"
  duration_seconds :: "int option"
  incident_type :: string
  severity :: string
  affected_targets :: string
  description :: string
  probable_cause :: "string option"
  is_resolved :: bool

text \<open>
  What the code takes from outside: the successive readings of \<^verbatim>\<open>datetime.utcnow()\<close>,
  whether the n-th call into the store raises, and the library functions
  \<^verbatim>\<open>json.dumps\<close> (on a list of strings), \<^verbatim>\<open>json.loads\<close> (the list of targets of a stored
  text, \<open>None\<close> when decoding or iterating raises \<^verbatim>\<open>JSONDecodeError\<close> or \<^verbatim>\<open>TypeError\<close>) and
  the formatting of a float in an f-string.
\<close>

record env =
  utcnow :: "nat \<Rightarrow> datetime"
  db_raises :: "nat \<Rightarrow> bool"
  json_dumps :: "string list \<Rightarrow> string"
  json_loads :: "string \<Rightarrow> string list option"
  str_float :: "real \<Rightarrow> string"

text \<open>
  The mutable state: the table of incidents in insertion order, the detector's dictionary
  \<^verbatim>\<open>active_incidents\<close> (key to incident id, in insertion order as a Python dict keeps it),
  and how many clock readings and store calls have happened.
\<close>

record state =
  rows :: "incident list"
  active_incidents :: "(string \<times> int) list"
  clock_reads :: nat
  db_calls :: nat

section \<open>Incident classifier\<close>

definition truthy :: "bool option \<Rightarrow> bool" where
  "truthy b = (case b of None \<Rightarrow> False | Some v \<Rightarrow> v)"

text \<open>\<^verbatim>\<open>str\<close> of an integer, as an f-string prints it.\<close>

fun str_nat :: "nat \<Rightarrow> string" where
  "str_nat n =
     (if n < 10 then [char_of (48 + n)]
      else str_nat (n div 10) @ [char_of (48 + n mod 10)])"

definition str_int :: "int \<Rightarrow> string" where
  "str_int i = (if i < 0 then ''-'' @ str_nat (nat (- i)) else str_nat (nat i))"

definition check_wifi_status :: "wifi_data \<Rightarrow> int \<Rightarrow> error + incident_data option" where
  "check_wifi_status wd rssi_critical =
    (if \<not> truthy (is_connected wd) then
       (case interface wd of
          None \<Rightarrow> Inl (KeyError ''interface'')
        | Some ifc \<Rightarrow> Inr (Some \<lparr>
            data_incident_type = ''wifi_outage'',
            data_severity = ''critical'',
            data_description = ''WiFi interface '' @ ifc @ '' disconnected'',
            data_affected_targets = [ifc],
            data_probable_cause = None \<rparr>))
     else
       (case rssi wd of
          None \<Rightarrow> Inr None
        | Some v \<Rightarrow>
            if v \<noteq> 0 \<and> v < rssi_critical then
              (case interface wd of
                 None \<Rightarrow> Inl (KeyError ''interface'')
               | Some ifc \<Rightarrow> Inr (Some \<lparr>
                   data_incident_type = ''wifi_degradation'',
                   data_severity = ''warning'',
                   data_description = ''WiFi signal weak: '' @ str_int v @ '' dBm'',
                   data_affected_targets = [ifc],
                   data_probable_cause = None \<rparr>))
            else Inr None))"

text \<open>\<^verbatim>\<open>[r["target"] for r in internet_results]\<close>; \<open>None\<close> when a key is missing.\<close>

fun targets_of :: "ping_result list \<Rightarrow> string list option" where
  "targets_of [] = Some []"
| "targets_of (r # rs) =
     (case target r of
        None \<Rightarrow> None
      | Some t \<Rightarrow> (case targets_of rs of None \<Rightarrow> None | Some ts \<Rightarrow> Some (t # ts)))"

definition check_network_connectivity ::
  "env \<Rightarrow> ping_result \<Rightarrow> ping_result list \<Rightarrow> error + incident_data option" where
  "check_network_connectivity ev gateway_result internet_results =
    (let gateway_reachable = truthy (is_reachable gateway_result);
         internet_reachable = list_ex (\<lambda>r. truthy (is_reachable r)) internet_results
     in if \<not> gateway_reachable then
          (case target gateway_result of
             None \<Rightarrow> Inl (KeyError ''target'')
           | Some t \<Rightarrow> Inr (Some \<lparr>
               data_incident_type = ''wifi_outage'',
               data_severity = ''critical'',
               data_description = ''Gateway '' @ t @ '' unreachable'',
               data_affected_targets = [t],
               data_probable_cause = None \<rparr>))
        else if gateway_reachable \<and> \<not> internet_reachable then
          (case targets_of internet_results of
             None \<Rightarrow> Inl (KeyError ''target'')
           | Some targets \<Rightarrow> Inr (Some \<lparr>
               data_incident_type = ''internet_outage'',
               data_severity = ''warning'',
               data_description = ''Internet connectivity lost (gateway reachable)'',
               data_affected_targets = targets,
               data_probable_cause = None \<rparr>))
        else
          (let loss = (case packet_loss gateway_result of None \<Rightarrow> 0 | Some p \<Rightarrow> p)
           in if loss > 20 then
                (case target gateway_result of
                   None \<Rightarrow> Inl (KeyError ''target'')
                 | Some t \<Rightarrow> Inr (Some \<lparr>
                     data_incident_type = ''wifi_degradation'',
                     data_severity = ''warning'',
                     data_description =
                       ''High packet loss to gateway: '' @ str_float ev loss @ ''%'',
                     data_affected_targets = [t],
                     data_probable_cause = None \<rparr>))
              else Inr None))"

definition check_sensor_status ::
  "sensor_check \<Rightarrow> bool \<Rightarrow> bool \<Rightarrow> incident_data option" where
  "check_sensor_status sc wifi_ok gateway_ok =
    (if truthy (is_available sc) then None
     else
       (let name = (case sensor_name sc of None \<Rightarrow> ''Unknown'' | Some n \<Rightarrow> n);
            ip = (case sensor_ip sc of None \<Rightarrow> ''Unknown'' | Some a \<Rightarrow> a);
            cause_severity =
              (if \<not> wifi_ok \<or> \<not> gateway_ok
               then (''WiFi/network connectivity issue (correlated with WiFi/gateway outage)'',
                     ''info'')
               else (''Sensor-specific issue (WiFi and gateway are operational)'',
                     ''warning''))
        in Some \<lparr>
             data_incident_type = ''sensor_outage'',
             data_severity = snd cause_severity,
             data_description =
               ''Sensor '' @ [CHR 0x27] @ name @ [CHR 0x27] @ '' ('' @ ip @ '') unavailable'',
             data_affected_targets = [name],
             data_probable_cause = Some (fst cause_severity) \<rparr>))"

section \<open>Record store\<close>


definition datetime_utcnow :: "env \<Rightarrow> state \<Rightarrow> datetime \<times> state" where
  "datetime_utcnow ev st =
     (utcnow ev (clock_reads st), st\<lparr>clock_reads := Suc (clock_reads st)\<rparr>)"

definition db_call :: "state \<Rightarrow> state" where
  "db_call st = st\<lparr>db_calls := Suc (db_calls st)\<rparr>"

text \<open>
  The primary key of a new row: SQLite gives an \<^verbatim>\<open>INTEGER PRIMARY KEY\<close> column one more
  than the largest key in the table, 1 in an empty table.
\<close>

definition new_id :: "incident list \<Rightarrow> int" where
  "new_id rs = (if rs = [] then 1 else Max (set (map incident_id rs)) + 1)"

definition add_incident ::
  "env \<Rightarrow> state \<Rightarrow> datetime \<Rightarrow> string \<Rightarrow> string \<Rightarrow> string \<Rightarrow> string \<Rightarrow> string option
   \<Rightarrow> bool \<Rightarrow> (error + incident) \<times> state" where
  "add_incident ev st start ty sev targets descr cause resolved =
     (if db_raises ev (db_calls st) then (Inl StoreError, db_call st)
      else
        (let row = \<lparr> incident_id = new_id (rows st), start_time = start, end_time = None,
                       duration_seconds = None, incident_type = ty, severity = sev,
                       affected_targets = targets, description = descr,
                       probable_cause = cause, is_resolved = resolved \<rparr>
         in (Inr row, (db_call st)\<lparr>rows := rows st @ [row]\<rparr>)))"

text \<open>The keyword arguments of \<^verbatim>\<open>update_incident\<close>, applied by \<^verbatim>\<open>setattr\<close> in order.\<close>

datatype incident_attr = End_time datetime | Duration_seconds int | Is_resolved bool

fun setattr :: "incident \<Rightarrow> incident_attr \<Rightarrow> incident" where
  "setattr i (End_time t) = i\<lparr>end_time := Some t\<rparr>"
| "setattr i (Duration_seconds d) = i\<lparr>duration_seconds := Some d\<rparr>"
| "setattr i (Is_resolved b) = i\<lparr>is_resolved := b\<rparr>"

text \<open>The first row with the given id, updated in place.\<close>

fun update_first :: "int \<Rightarrow> incident_attr list \<Rightarrow> incident list \<Rightarrow> incident list" where
  "update_first n kwargs [] = []"
| "update_first n kwargs (r # rs) =
     (if incident_id r = n then foldl setattr r kwargs # rs
      else r # update_first n kwargs rs)"

definition update_incident ::
  "env \<Rightarrow> state \<Rightarrow> int \<Rightarrow> incident_attr list \<Rightarrow> (error + incident option) \<times> state" where
  "update_incident ev st n kwargs =
     (if db_raises ev (db_calls st) then (Inl StoreError, db_call st)
      else
        (case find (\<lambda>r. incident_id r = n) (rows st) of
           None \<Rightarrow> (Inr None, db_call st)
         | Some r \<Rightarrow>
             (Inr (Some (foldl setattr r kwargs)),
              (db_call st)\<lparr>rows := update_first n kwargs (rows st)\<rparr>)))"

definition get_active_incidents :: "env \<Rightarrow> state \<Rightarrow> (error + incident list) \<times> state" where
  "get_active_incidents ev st =
     (if db_raises ev (db_calls st) then (Inl StoreError, db_call st)
      else (Inr (filter (\<lambda>r. \<not> is_resolved r) (rows st)), db_call st))"

text \<open>
  \<^verbatim>\<open>get_incidents\<close>: each filter is applied when its argument is given (a \<^verbatim>\<open>datetime\<close>
  is always true as a condition; an empty type string is not), and the result is ordered
  by \<^verbatim>\<open>start_time\<close> (rows with equal times in table order).
\<close>

definition get_incidents ::
  "env \<Rightarrow> state \<Rightarrow> datetime option \<Rightarrow> datetime option \<Rightarrow> string option
   \<Rightarrow> (error + incident list) \<times> state" where
  "get_incidents ev st start_t end_t ty =
     (if db_raises ev (db_calls st) then (Inl StoreError, db_call st)
      else
        (let q1 = (case start_t of None \<Rightarrow> rows st
                   | Some s \<Rightarrow> filter (\<lambda>r. start_time r \<ge> s) (rows st));
             q2 = (case end_t of None \<Rightarrow> q1
                   | Some e \<Rightarrow> filter (\<lambda>r. start_time r \<le> e) q1);
             q3 = (case ty of None \<Rightarrow> q2
                   | Some t \<Rightarrow> if t = [] then q2 else filter (\<lambda>r. incident_type r = t) q2)
         in (Inr (sort_key start_time q3), db_call st)))"

section \<open>Incident lifecycle manager\<close>

definition incident_key :: "env \<Rightarrow> incident_data \<Rightarrow> string" where
  "incident_key ev d =
     data_incident_type d @ '':'' @ json_dumps ev (sort (data_affected_targets d))"

definition process_incident :: "env \<Rightarrow> state \<Rightarrow> incident_data \<Rightarrow> (error + int) \<times> state" where
  "process_incident ev st d =
     (let key = incident_key ev d
      in case map_of (active_incidents st) key of
           Some n \<Rightarrow> (Inr n, st)
         | None \<Rightarrow>
            (let (now, st1) = datetime_utcnow ev st
             in case add_incident ev st1 now (data_incident_type d) (data_severity d)
                       (json_dumps ev (data_affected_targets d)) (data_description d)
                       (data_probable_cause d) False of
                  (Inl e, st2) \<Rightarrow> (Inl e, st2)
                | (Inr row, st2) \<Rightarrow>
                    (Inr (incident_id row),
                     st2\<lparr>active_incidents :=
                           AList.update key (incident_id row) (active_incidents st2)\<rparr>)))"

text \<open>
  The two steps of \<open>process_incident\<close> that another thread can come between: the test
  \<^verbatim>\<open>incident_key in self.active_incidents\<close> with the lookup, and the opening (the store
  call, which blocks, and then the assignment to the dictionary). \<^verbatim>\<open>IncidentDetector\<close> holds
  no lock; only the methods of \<^verbatim>\<open>Database\<close> do, each for its own call.
\<close>

definition lookup_incident :: "env \<Rightarrow> state \<Rightarrow> incident_data \<Rightarrow> int option" where
  "lookup_incident ev st d = map_of (active_incidents st) (incident_key ev d)"

definition open_incident :: "env \<Rightarrow> state \<Rightarrow> incident_data \<Rightarrow> (error + int) \<times> state" where
  "open_incident ev st d =
     (let key = incident_key ev d;
          (now, st1) = datetime_utcnow ev st
      in case add_incident ev st1 now (data_incident_type d) (data_severity d)
                (json_dumps ev (data_affected_targets d)) (data_description d)
                (data_probable_cause d) False of
           (Inl e, st2) \<Rightarrow> (Inl e, st2)
         | (Inr row, st2) \<Rightarrow>
             (Inr (incident_id row),
              st2\<lparr>active_incidents :=
                    AList.update key (incident_id row) (active_incidents st2)\<rparr>))"

text \<open>
  Two threads in \<open>process_incident\<close> at once, the second making its test while the first
  is in the store call: both tests, then the first thread's step, then the second's.
\<close>

definition racing_process_incident ::
  "env \<Rightarrow> state \<Rightarrow> incident_data \<Rightarrow> incident_data \<Rightarrow> (error + int) \<times> (error + int) \<times> state" where
  "racing_process_incident ev st d1 d2 =
     (let found1 = lookup_incident ev st d1;
          found2 = lookup_incident ev st d2;
          (r1, st1) = (case found1 of Some n \<Rightarrow> (Inr n, st) | None \<Rightarrow> open_incident ev st d1);
          (r2, st2) = (case found2 of Some n \<Rightarrow> (Inr n, st1) | None \<Rightarrow> open_incident ev st1 d2)
      in (r1, r2, st2))"

text \<open>
  \<^verbatim>\<open>timedelta.total_seconds()\<close> of a difference in microseconds, and \<^verbatim>\<open>int(x)\<close> of a
  float, which truncates towards zero. The quotient is exact here; Python rounds it to a
  double, and \<^verbatim>\<open>int\<close> of the double is the truncation of the exact quotient as long as
  the difference is less than \<open>2 ^ 34\<close> seconds (about 544 years). Beyond that the double
  can round up to the next whole second, which this model does not show.
\<close>

definition total_seconds :: "int \<Rightarrow> real" where
  "total_seconds delta = real_of_int delta / 1000000"

definition py_int :: "real \<Rightarrow> int" where
  "py_int x = (if 0 \<le> x then \<lfloor>x\<rfloor> else \<lceil>x\<rceil>)"

definition resolve_incident :: "env \<Rightarrow> state \<Rightarrow> string \<Rightarrow> (error + unit) \<times> state" where
  "resolve_incident ev st key =
     (case map_of (active_incidents st) key of
        None \<Rightarrow> (Inr (), st)
      | Some n \<Rightarrow>
         (let (end_t, st1) = datetime_utcnow ev st
          in case get_active_incidents ev st1 of
               (Inl e, st2) \<Rightarrow> (Inl e, st2)
             | (Inr incidents, st2) \<Rightarrow>
                 (let kwargs =
                    (case find (\<lambda>i. incident_id i = n) incidents of
                       Some i \<Rightarrow> [End_time end_t,
                                  Duration_seconds (py_int (total_seconds (end_t - start_time i))),
                                  Is_resolved True]
                     | None \<Rightarrow> [End_time end_t, Is_resolved True])
                  in case update_incident ev st2 n kwargs of
                       (Inl e, st3) \<Rightarrow> (Inl e, st3)
                     | (Inr _, st3) \<Rightarrow>
                         (Inr (), st3\<lparr>active_incidents :=
                                     AList.delete key (active_incidents st3)\<rparr>))))"

fun resolve_each :: "env \<Rightarrow> state \<Rightarrow> string list \<Rightarrow> (error + unit) \<times> state" where
  "resolve_each ev st [] = (Inr (), st)"
| "resolve_each ev st (k # ks) =
     (case resolve_incident ev st k of
        (Inl e, st1) \<Rightarrow> (Inl e, st1)
      | (Inr _, st1) \<Rightarrow> resolve_each ev st1 ks)"

definition still_active :: "(string \<rightharpoonup> bool) \<Rightarrow> string \<Rightarrow> bool" where
  "still_active current_states k = (current_states k = Some True)"

definition check_and_resolve_incidents ::
  "env \<Rightarrow> state \<Rightarrow> (string \<rightharpoonup> bool) \<Rightarrow> (error + unit) \<times> state" where
  "check_and_resolve_incidents ev st current_states =
     (let to_resolve =
        filter (\<lambda>k. case current_states k of None \<Rightarrow> True | Some b \<Rightarrow> \<not> b)
          (map fst (active_incidents st))
      in resolve_each ev st to_resolve)"


section \<open>Incident analytics\<close>

text \<open>The summary dictionary; \<open>mtbf_seconds = None\<close> when the dictionary has no such key.\<close>

record analysis =
  total_incidents :: nat
  by_type :: "(string \<times> nat) list"
  by_severity :: "(string \<times> nat) list"
  avg_duration_seconds :: real
  total_downtime_seconds :: int
  most_affected_target :: "string option"
  mtbf_seconds :: "real option"

text \<open>\<^verbatim>\<open>counts[k] += 1\<close> on a \<^verbatim>\<open>defaultdict(int)\<close>.\<close>

definition tally :: "string \<Rightarrow> (string \<times> nat) list \<Rightarrow> (string \<times> nat) list" where
  "tally k m = AList.update k (case map_of m k of None \<Rightarrow> 1 | Some c \<Rightarrow> c + 1) m"

record tallies =
  acc_by_type :: "(string \<times> nat) list"
  acc_by_severity :: "(string \<times> nat) list"
  durations :: "int list"
  acc_affected_targets :: "(string \<times> nat) list"

text \<open>
  One round of the loop over the incidents. \<^verbatim>\<open>if incident.duration_seconds:\<close> holds for
  a duration that is neither \<^verbatim>\<open>None\<close> nor 0.
\<close>

definition analyze_step :: "env \<Rightarrow> tallies \<Rightarrow> incident \<Rightarrow> tallies" where
  "analyze_step ev acc i =
     acc\<lparr> acc_by_type := tally (incident_type i) (acc_by_type acc),
          acc_by_severity := tally (severity i) (acc_by_severity acc),
          durations :=
            (case duration_seconds i of
               None \<Rightarrow> durations acc
             | Some d \<Rightarrow> if d \<noteq> 0 then durations acc @ [d] else durations acc),
          acc_affected_targets :=
            (case json_loads ev (affected_targets i) of
               None \<Rightarrow> acc_affected_targets acc
             | Some targets \<Rightarrow> foldl (\<lambda>m t. tally t m) (acc_affected_targets acc) targets) \<rparr>"

text \<open>\<^verbatim>\<open>max(items, key=lambda x: x[1])[0]\<close>: the first item with the largest count.\<close>

definition most_affected :: "(string \<times> nat) list \<Rightarrow> string option" where
  "most_affected items =
     (case items of
        [] \<Rightarrow> None
      | x # xs \<Rightarrow> Some (fst (foldl (\<lambda>best y. if snd y > snd best then y else best) x xs)))"

definition analyze_incident_patterns ::
  "env \<Rightarrow> state \<Rightarrow> datetime \<Rightarrow> datetime \<Rightarrow> (error + analysis) \<times> state" where
  "analyze_incident_patterns ev st start_t end_t =
     (case get_incidents ev st (Some start_t) (Some end_t) None of
        (Inl e, st1) \<Rightarrow> (Inl e, st1)
      | (Inr incidents, st1) \<Rightarrow>
          (if incidents = [] then
             (Inr \<lparr> total_incidents = 0, by_type = [], by_severity = [],
                     avg_duration_seconds = 0, total_downtime_seconds = 0,
                     most_affected_target = None, mtbf_seconds = None \<rparr>, st1)
           else
             (let acc = foldl (analyze_step ev)
                          \<lparr> acc_by_type = [], acc_by_severity = [], durations = [],
                            acc_affected_targets = [] \<rparr> incidents;
                  avg_duration =
                    (if durations acc \<noteq> []
                     then real_of_int (sum_list (durations acc)) / real (length (durations acc))
                     else 0);
                  total_downtime = sum_list (durations acc)
              in (Inr \<lparr> total_incidents = length incidents,
                        by_type = acc_by_type acc,
                        by_severity = acc_by_severity acc,
                        avg_duration_seconds = avg_duration,
                        total_downtime_seconds = total_downtime,
                        most_affected_target = most_affected (acc_affected_targets acc),
                        mtbf_seconds =
                          Some (if incidents \<noteq> []
                                then total_seconds (end_t - start_t) / real (length incidents)
                                else 0) \<rparr>, st1))))"

text \<open>
  The durations the loop collects from a list of incidents: those that are set and not 0,
  in order.
\<close>

definition counted_durations :: "incident list \<Rightarrow> int list" where
  "counted_durations incidents =
     concat (map (\<lambda>i. case duration_seconds i of
                          None \<Rightarrow> []
                        | Some d \<Rightarrow> if d \<noteq> 0 then [d] else []) incidents)"

section \<open>The WiFi check loop\<close>

text \<open>
  The loop of \<^verbatim>\<open>NetworkMonitorApp._monitor_wifi\<close> (\<^verbatim>\<open>src/monitor.py\<close>), one iteration per
  WiFi snapshot that \<^verbatim>\<open>get_wifi_status\<close> returns; the loop runs as long as snapshots come
  (\<^verbatim>\<open>self.running\<close> and the sleep between iterations are left out). Of the store only the
  table of incidents is modelled: writing a WiFi metric is a call that may raise, and the
  cleanup removes the incidents older than the cutoff. The local variable
  \<^verbatim>\<open>last_cleanup\<close> is a field of the record; it starts as the clock reading taken before
  the loop.
\<close>

record config =
  rssi_critical_threshold :: int
  data_retention_days :: int

record monitor =
  core :: state
  current_wifi :: "wifi_data option"
  last_update :: "datetime option"
  wifi_checks :: nat
  incidents_stat :: nat
  last_cleanup :: datetime
  error_log :: "error list"

definition add_wifi_metric :: "env \<Rightarrow> state \<Rightarrow> (error + unit) \<times> state" where
  "add_wifi_metric ev st =
     (if db_raises ev (db_calls st) then (Inl StoreError, db_call st) else (Inr (), db_call st))"

definition cleanup_old_data :: "env \<Rightarrow> state \<Rightarrow> int \<Rightarrow> (error + unit) \<times> state" where
  "cleanup_old_data ev st days =
     (let (now, st1) = datetime_utcnow ev st;
          cutoff = now - days * 86400000000
      in if db_raises ev (db_calls st1) then (Inl StoreError, db_call st1)
         else (Inr (), (db_call st1)\<lparr>rows := filter (\<lambda>r. \<not> start_time r < cutoff) (rows st1)\<rparr>))"

text \<open>The body of the \<^verbatim>\<open>try\<close> block: the exception raised, if any, and the state reached.\<close>

definition monitor_wifi_body ::
  "env \<Rightarrow> config \<Rightarrow> monitor \<Rightarrow> wifi_data \<Rightarrow> (error + unit) \<times> monitor" where
  "monitor_wifi_body ev cfg app wd =
     (case add_wifi_metric ev (core app) of
        (Inl e, st1) \<Rightarrow> (Inl e, app\<lparr>core := st1\<rparr>)
      | (Inr _, st1) \<Rightarrow>
         (let (now, st2) = datetime_utcnow ev st1;
              app1 = app\<lparr> core := st2, current_wifi := Some wd, last_update := Some now,
                          wifi_checks := Suc (wifi_checks app) \<rparr>
          in case check_wifi_status wd (rssi_critical_threshold cfg) of
               Inl e \<Rightarrow> (Inl e, app1)
             | Inr found \<Rightarrow>
                (case (case found of
                         Some d \<Rightarrow>
                           (case process_incident ev st2 d of
                              (Inl e, st3) \<Rightarrow> (Inl e, st3)
                            | (Inr _, st3) \<Rightarrow> (Inr (), st3))
                       | None \<Rightarrow>
                           resolve_each ev st2
                             (filter (\<lambda>k. prefix ''wifi_outage:'' k \<or> prefix ''wifi_degradation:'' k)
                                (map fst (active_incidents st2)))) of
                   (Inl e, st3) \<Rightarrow> (Inl e, app1\<lparr>core := st3\<rparr>)
                 | (Inr _, st3) \<Rightarrow>
                    (let app2 = app1\<lparr> core := st3,
                                      incidents_stat := length (active_incidents st3) \<rparr>;
                         (now2, st4) = datetime_utcnow ev st3
                     in if total_seconds (now2 - last_cleanup app2) > 21600 then
                          (case cleanup_old_data ev st4 (data_retention_days cfg) of
                             (Inl e, st5) \<Rightarrow> (Inl e, app2\<lparr>core := st5\<rparr>)
                           | (Inr _, st5) \<Rightarrow>
                               (let (now3, st6) = datetime_utcnow ev st5
                                in (Inr (), app2\<lparr>core := st6, last_cleanup := now3\<rparr>)))
                        else (Inr (), app2\<lparr>core := st4\<rparr>)))))"

text \<open>
  One iteration: \<^verbatim>\<open>except Exception\<close> logs the error, and the loop goes on with the next
  snapshot.
\<close>

definition monitor_wifi_iteration :: "env \<Rightarrow> config \<Rightarrow> monitor \<Rightarrow> wifi_data \<Rightarrow> monitor" where
  "monitor_wifi_iteration ev cfg app wd =
     (case monitor_wifi_body ev cfg app wd of
        (Inl e, app1) \<Rightarrow> app1\<lparr>error_log := error_log app1 @ [e]\<rparr>
      | (Inr _, app1) \<Rightarrow> app1)"

fun monitor_wifi :: "env \<Rightarrow> config \<Rightarrow> monitor \<Rightarrow> wifi_data list \<Rightarrow> monitor" where
  "monitor_wifi ev cfg app [] = app"
| "monitor_wifi ev cfg app (wd # wds) =
     monitor_wifi ev cfg (monitor_wifi_iteration ev cfg app wd) wds"

section \<open>Sequences of calls\<close>

text \<open>
  The calls the check loops make that change the table of incidents or the dictionary: the
  three lifecycle operations of the detector, and the retention cleanup of the store that
  the WiFi loop runs between them. An exception a call raises is caught by the loop, which
  goes on with the state the call left.
\<close>

datatype call =
  Process_incident incident_data
| Resolve_incident string
| Check_and_resolve_incidents "string \<rightharpoonup> bool"
| Cleanup_old_data int

fun do_call :: "env \<Rightarrow> state \<Rightarrow> call \<Rightarrow> state" where
  "do_call ev st (Process_incident d) = snd (process_incident ev st d)"
| "do_call ev st (Resolve_incident k) = snd (resolve_incident ev st k)"
| "do_call ev st (Check_and_resolve_incidents cs) = snd (check_and_resolve_incidents ev st cs)"
| "do_call ev st (Cleanup_old_data days) = snd (cleanup_old_data ev st days)"

fun run :: "env \<Rightarrow> state \<Rightarrow> call list \<Rightarrow> state" where
  "run ev st [] = st"
| "run ev st (c # cs) = run ev (do_call ev st c) cs"

text \<open>
  A cleanup spares the open incidents when no row whose id is registered in the dictionary
  is older than its cutoff; a sequence of calls does when each of its cleanups does, in the
  state it is called in.
\<close>

fun spares_open :: "env \<Rightarrow> state \<Rightarrow> call \<Rightarrow> bool" where
  "spares_open ev st (Cleanup_old_data days) =
     list_all (\<lambda>r. incident_id r \<in> snd ` set (active_incidents st) \<longrightarrow>
                   \<not> start_time r < utcnow ev (clock_reads st) - days * 86400000000)
       (rows st)"
| "spares_open ev st c = True"

fun cleanups_spare_open :: "env \<Rightarrow> state \<Rightarrow> call list \<Rightarrow> bool" where
  "cleanups_spare_open ev st [] = True"
| "cleanups_spare_open ev st (c # cs) =
     (spares_open ev st c \<and> cleanups_spare_open ev (do_call ev st c) cs)"

section \<open>Invariants of the lifecycle\<close>




text \<open>What closing at time \<open>e\<close> makes of a row.\<close>

definition close_row :: "datetime \<Rightarrow> incident \<Rightarrow> incident" where
  "close_row e r =
     r\<lparr> end_time := Some e,
        duration_seconds := Some (py_int (total_seconds (e - start_time r))),
        is_resolved := True \<rparr>"

definition closed_from :: "incident \<Rightarrow> incident \<Rightarrow> bool" where
  "closed_from r r' = (\<exists>e. r' = close_row e r)"

text \<open>
  A table and a dictionary that fit: the ids of the table are distinct, so are the keys and
  the ids of the dictionary, and every registered id is the id of an unresolved row.
\<close>

definition consistent :: "state \<Rightarrow> bool" where
  "consistent st =
     (distinct (map incident_id (rows st))
      \<and> distinct (map fst (active_incidents st))
      \<and> distinct (map snd (active_incidents st))
      \<and> list_all (\<lambda>(k, i). list_ex (\<lambda>r. incident_id r = i \<and> \<not> is_resolved r) (rows st))
           (active_incidents st))"


text \<open>The ids registered under the keys that a reconciliation closes.\<close>

definition stale_ids :: "state \<Rightarrow> (string \<rightharpoonup> bool) \<Rightarrow> int set" where
  "stale_ids st current_states =
     snd ` set (filter (\<lambda>(k, i). \<not> still_active current_states k) (active_incidents st))"

section \<open>Reading results\<close>

text \<open>
  A classifier result that is a descriptor of the given type and severity for the given
  targets.
\<close>

definition is_descriptor :: "incident_data option \<Rightarrow> string \<Rightarrow> string \<Rightarrow> string list \<Rightarrow> bool" where
  "is_descriptor r ty sev targets =
     (case r of
        None \<Rightarrow> False
      | Some d \<Rightarrow> data_incident_type d = ty \<and> data_severity d = sev
                  \<and> data_affected_targets d = targets)"

definition returns_descriptor ::
  "error + incident_data option \<Rightarrow> string \<Rightarrow> string \<Rightarrow> string list \<Rightarrow> bool" where
  "returns_descriptor r ty sev targets =
     (case r of Inl e \<Rightarrow> False | Inr v \<Rightarrow> is_descriptor v ty sev targets)"

definition gateway_loss :: "ping_result \<Rightarrow> real" where
  "gateway_loss g = (case packet_loss g of None \<Rightarrow> 0 | Some p \<Rightarrow> p)"

text \<open>Firing the same descriptor n times in a row: the results in order, and the state.\<close>

fun fire :: "env \<Rightarrow> state \<Rightarrow> incident_data \<Rightarrow> nat \<Rightarrow> (error + int) list \<times> state" where
  "fire ev st d 0 = ([], st)"
| "fire ev st d (Suc n) =
     (let (r, st1) = process_incident ev st d;
          (rs, st2) = fire ev st1 d n
      in (r # rs, st2))"

section \<open>Examples\<close>

text \<open>
  A stand-in for \<^verbatim>\<open>json.dumps\<close> on strings that need no escaping, a clock that advances
  one second per reading, and a store that never raises.
\<close>

fun join_comma :: "string list \<Rightarrow> string" where
  "join_comma [] = []"
| "join_comma [x] = x"
| "join_comma (x # y # ys) = x @ '', '' @ join_comma (y # ys)"

definition example_dumps :: "string list \<Rightarrow> string" where
  "example_dumps xs = ''['' @ join_comma (map (\<lambda>x. [CHR 0x22] @ x @ [CHR 0x22]) xs) @ '']''"

definition example_env :: env where
  "example_env =
     \<lparr> utcnow = (\<lambda>n. int n * 1000000),
       db_raises = (\<lambda>n. False),
       json_dumps = example_dumps,
       json_loads = (\<lambda>s. None),
       str_float = (\<lambda>x. ''?'') \<rparr>"

definition empty_state :: state where
  "empty_state = \<lparr> rows = [], active_incidents = [], clock_reads = 0, db_calls = 0 \<rparr>"

definition ping :: "string \<Rightarrow> bool \<Rightarrow> real \<Rightarrow> ping_result" where
  "ping t ok loss = \<lparr> target = Some t, is_reachable = Some ok, packet_loss = Some loss \<rparr>"

definition sensor :: "string \<Rightarrow> bool \<Rightarrow> sensor_check" where
  "sensor name ok =
     \<lparr> is_available = Some ok, sensor_name = Some name, sensor_ip = Some ''192.168.1.50'' \<rparr>"

definition wlan0_down :: wifi_data where
  "wlan0_down = \<lparr> interface = Some ''wlan0'', is_connected = Some False, rssi = None \<rparr>"

definition wlan0_outage :: incident_data where
  "wlan0_outage =
     \<lparr> data_incident_type = ''wifi_outage'', data_severity = ''critical'',
       data_description = ''WiFi interface wlan0 disconnected'',
       data_affected_targets = [''wlan0''], data_probable_cause = None \<rparr>"

text \<open>
  An outage opened and closed within half a second, then one that lasts ten seconds.
\<close>

definition flapping_env :: env where
  "flapping_env =
     example_env\<lparr> utcnow :=
       (\<lambda>n. if n = 0 then 0 else if n = 1 then 500000
             else if n = 2 then 100000000 else 110000000) \<rparr>"

definition flapping_calls :: "call list" where
  "flapping_calls =
     [Process_incident wlan0_outage, Resolve_incident (incident_key example_env wlan0_outage),
      Process_incident wlan0_outage, Resolve_incident (incident_key example_env wlan0_outage)]"

text \<open>The configuration defaults, and a monitor at its start.\<close>

definition example_config :: config where
  "example_config = \<lparr> rssi_critical_threshold = - 80, data_retention_days = 7 \<rparr>"

definition example_monitor :: monitor where
  "example_monitor =
     \<lparr> core = empty_state, current_wifi = None, last_update = None, wifi_checks = 0,
       incidents_stat = 0, last_cleanup = 0, error_log = [] \<rparr>"



text \<open>Three descriptors with keys of their own, and the live set that keeps the second.\<close>

definition outage_of :: "string \<Rightarrow> incident_data" where
  "outage_of t =
     \<lparr> data_incident_type = ''sensor_outage'', data_severity = ''warning'',
       data_description = ''Sensor unavailable'',
       data_affected_targets = [t], data_probable_cause = None \<rparr>"

definition three_open :: state where
  "three_open =
     run example_env empty_state
       [Process_incident (outage_of ''A''), Process_incident (outage_of ''B''),
        Process_incident (outage_of ''C'')]"

definition only_B :: "string \<rightharpoonup> bool" where
  "only_B = [incident_key example_env (outage_of ''B'') \<mapsto> True]"


text \<open>
  A WiFi outage that lasts more than the seven days of retention: a clock that advances ten
  seconds per reading and eight days more from its fourth reading on, and the snapshots of
  an interface that is down, still down, back with a weak signal, and then fine.
\<close>

definition week_env :: env where
  "week_env =
     example_env\<lparr> utcnow :=
       (\<lambda>n. int n * 10000000 + (if 3 \<le> n then 691200000000 else 0)) \<rparr>"

definition wlan0_weak :: wifi_data where
  "wlan0_weak = \<lparr> interface = Some ''wlan0'', is_connected = Some True, rssi = Some (- 90) \<rparr>"


definition wlan0_degradation :: incident_data where
  "wlan0_degradation =
     \<lparr> data_incident_type = ''wifi_degradation'', data_severity = ''warning'',
       data_description = ''WiFi signal weak: -90 dBm'',
       data_affected_targets = [''wlan0''], data_probable_cause = None \<rparr>"


text \<open>A store whose fifth call raises.\<close>

definition fifth_fails_env :: env where
  "fifth_fails_env = example_env\<lparr> db_raises := (\<lambda>n. n = 4) \<rparr>"

text \<open>
  The state that outage leaves once the signal is back but weak, and a live set that keeps
  the key of the weak signal only.
\<close>

definition week_state :: state where
  "week_state =
     core (monitor_wifi week_env example_config example_monitor
       [wlan0_down, wlan0_down, wlan0_weak])"

definition only_degradation :: "string \<rightharpoonup> bool" where
  "only_degradation = [incident_key week_env wlan0_degradation \<mapsto> True]"

section \<open>Classifier properties\<close>

text \<open>
  C4. Network-connectivity classifier priority. For a gateway ping result and internet
  ping results that carry their targets, the rules apply in order and the first that
  matches decides: an unreachable gateway gives wifi_outage/critical for the gateway,
  whatever the internet targets say; otherwise no reachable internet target gives
  internet_outage/warning listing the internet targets; otherwise a gateway packet loss
  above 20 gives wifi_degradation/warning for the gateway; otherwise there is no incident.
\<close>

theorem check_network_connectivity_priority:
  assumes "target g = Some t" and "targets_of rs = Some ts"
  shows "(\<not> truthy (is_reachable g) \<longrightarrow>
            returns_descriptor (check_network_connectivity ev g rs)
              ''wifi_outage'' ''critical'' [t])
       \<and> (truthy (is_reachable g) \<and> \<not> list_ex (\<lambda>r. truthy (is_reachable r)) rs \<longrightarrow>
            returns_descriptor (check_network_connectivity ev g rs)
              ''internet_outage'' ''warning'' ts)
       \<and> (truthy (is_reachable g) \<and> list_ex (\<lambda>r. truthy (is_reachable r)) rs
            \<and> gateway_loss g > 20 \<longrightarrow>
            returns_descriptor (check_network_connectivity ev g rs)
              ''wifi_degradation'' ''warning'' [t])
       \<and> (truthy (is_reachable g) \<and> list_ex (\<lambda>r. truthy (is_reachable r)) rs
            \<and> \<not> gateway_loss g > 20 \<longrightarrow>
            check_network_connectivity ev g rs = Inr None)"
  using assms
  by (simp add: check_network_connectivity_def returns_descriptor_def is_descriptor_def
      gateway_loss_def Let_def)

theorem check_network_connectivity_priority_witness:
  "returns_descriptor
     (check_network_connectivity example_env (ping ''192.168.1.1'' False 100)
        [ping ''8.8.8.8'' False 100, ping ''1.1.1.1'' False 100])
     ''wifi_outage'' ''critical'' [''192.168.1.1'']
   \<and> returns_descriptor
     (check_network_connectivity example_env (ping ''192.168.1.1'' True 0)
        [ping ''8.8.8.8'' False 100, ping ''1.1.1.1'' False 100])
     ''internet_outage'' ''warning'' [''8.8.8.8'', ''1.1.1.1'']
   \<and> returns_descriptor
     (check_network_connectivity example_env (ping ''192.168.1.1'' True 25)
        [ping ''8.8.8.8'' True 0, ping ''1.1.1.1'' False 100])
     ''wifi_degradation'' ''warning'' [''192.168.1.1'']
   \<and> check_network_connectivity example_env (ping ''192.168.1.1'' True 20)
        [ping ''8.8.8.8'' True 0, ping ''1.1.1.1'' False 100] = Inr None"
  using
    check_network_connectivity_priority [of "ping ''192.168.1.1'' False 100" "''192.168.1.1''"
      "[ping ''8.8.8.8'' False 100, ping ''1.1.1.1'' False 100]" "[''8.8.8.8'', ''1.1.1.1'']"
      example_env]
    check_network_connectivity_priority [of "ping ''192.168.1.1'' True 0" "''192.168.1.1''"
      "[ping ''8.8.8.8'' False 100, ping ''1.1.1.1'' False 100]" "[''8.8.8.8'', ''1.1.1.1'']"
      example_env]
    check_network_connectivity_priority [of "ping ''192.168.1.1'' True 25" "''192.168.1.1''"
      "[ping ''8.8.8.8'' True 0, ping ''1.1.1.1'' False 100]" "[''8.8.8.8'', ''1.1.1.1'']"
      example_env]
    check_network_connectivity_priority [of "ping ''192.168.1.1'' True 20" "''192.168.1.1''"
      "[ping ''8.8.8.8'' True 0, ping ''1.1.1.1'' False 100]" "[''8.8.8.8'', ''1.1.1.1'']"
      example_env]
  by (simp add: ping_def truthy_def gateway_loss_def)

text \<open>
  C10. A reachable gateway with an empty list of internet results: no internet target is
  reachable, so the classifier returns internet_outage/warning with no affected targets.
\<close>

theorem check_network_connectivity_no_targets:
  assumes "truthy (is_reachable g)"
  shows "returns_descriptor (check_network_connectivity ev g [])
           ''internet_outage'' ''warning'' []"
  using assms
  by (simp add: check_network_connectivity_def returns_descriptor_def is_descriptor_def)

theorem check_network_connectivity_no_targets_witness:
  "truthy (is_reachable (ping ''192.168.1.1'' True 0))
   \<and> returns_descriptor (check_network_connectivity example_env (ping ''192.168.1.1'' True 0) [])
       ''internet_outage'' ''warning'' []"
proof -
  have h: "truthy (is_reachable (ping ''192.168.1.1'' True 0))"
    by (simp add: ping_def truthy_def)
  from check_network_connectivity_no_targets [OF h, of example_env] h show ?thesis
    by simp
qed

text \<open>
  C7. Sensor correlation classification. An available sensor gives no incident. An
  unavailable sensor gives a sensor_outage for the sensor's name: with severity info and a
  probable cause naming the correlation with the WiFi/gateway outage when the WiFi flag or
  the gateway flag is false, with severity warning and a sensor-specific probable cause when
  both flags are true.
\<close>

theorem check_sensor_status_correlation:
  "(truthy (is_available sc) \<longrightarrow> check_sensor_status sc wifi_ok gateway_ok = None)
   \<and> (\<not> truthy (is_available sc) \<and> (\<not> wifi_ok \<or> \<not> gateway_ok) \<longrightarrow>
        is_descriptor (check_sensor_status sc wifi_ok gateway_ok) ''sensor_outage'' ''info''
          [case sensor_name sc of None \<Rightarrow> ''Unknown'' | Some n \<Rightarrow> n]
        \<and> map_option data_probable_cause (check_sensor_status sc wifi_ok gateway_ok) =
            Some (Some
              ''WiFi/network connectivity issue (correlated with WiFi/gateway outage)''))
   \<and> (\<not> truthy (is_available sc) \<and> wifi_ok \<and> gateway_ok \<longrightarrow>
        is_descriptor (check_sensor_status sc wifi_ok gateway_ok) ''sensor_outage'' ''warning''
          [case sensor_name sc of None \<Rightarrow> ''Unknown'' | Some n \<Rightarrow> n]
        \<and> map_option data_probable_cause (check_sensor_status sc wifi_ok gateway_ok) =
            Some (Some ''Sensor-specific issue (WiFi and gateway are operational)''))"
  by (simp add: check_sensor_status_def is_descriptor_def Let_def)

theorem check_sensor_status_correlation_witness:
  "check_sensor_status (sensor ''cam'' True) False False = None
   \<and> is_descriptor (check_sensor_status (sensor ''cam'' False) True False)
       ''sensor_outage'' ''info'' [''cam'']
   \<and> map_option data_probable_cause (check_sensor_status (sensor ''cam'' False) True False) =
       Some (Some ''WiFi/network connectivity issue (correlated with WiFi/gateway outage)'')
   \<and> is_descriptor (check_sensor_status (sensor ''cam'' False) True True)
       ''sensor_outage'' ''warning'' [''cam'']
   \<and> map_option data_probable_cause (check_sensor_status (sensor ''cam'' False) True True) =
       Some (Some ''Sensor-specific issue (WiFi and gateway are operational)'')"
  using check_sensor_status_correlation [of "sensor ''cam'' True" False False]
    check_sensor_status_correlation [of "sensor ''cam'' False" True False]
    check_sensor_status_correlation [of "sensor ''cam'' False" True True]
  by (simp add: sensor_def truthy_def)

section \<open>Lifecycle properties\<close>

lemma fire_registered:
  "map_of (active_incidents st) (incident_key ev d) = Some n \<Longrightarrow>
   fire ev st d k = (replicate k (Inr n), st)"
  by (induction k) (simp_all add: process_incident_def Let_def)

lemma process_incident_opens:
  assumes "map_of (active_incidents st) (incident_key ev d) = None"
    and "\<not> db_raises ev (db_calls st)"
  shows "\<exists>row st1. process_incident ev st d = (Inr (new_id (rows st)), st1)
           \<and> rows st1 = rows st @ [row]
           \<and> incident_id row = new_id (rows st) \<and> \<not> is_resolved row
           \<and> start_time row = utcnow ev (clock_reads st)
           \<and> end_time row = None \<and> duration_seconds row = None
           \<and> active_incidents st1 =
               AList.update (incident_key ev d) (new_id (rows st)) (active_incidents st)
           \<and> clock_reads st1 = Suc (clock_reads st) \<and> db_calls st1 = Suc (db_calls st)"
  using assms
  by (simp add: process_incident_def add_incident_def datetime_utcnow_def db_call_def Let_def)

lemma process_incident_add_raises:
  assumes "map_of (active_incidents st) (incident_key ev d) = None"
    and "db_raises ev (db_calls st)"
  shows "process_incident ev st d =
           (Inl StoreError, st\<lparr>clock_reads := Suc (clock_reads st), db_calls := Suc (db_calls st)\<rparr>)"
  using assms
  by (simp add: process_incident_def add_incident_def datetime_utcnow_def db_call_def Let_def)

text \<open>
  C1. Idempotent continuation. When the key of a descriptor is registered in
  \<^verbatim>\<open>active_incidents\<close>, \<open>process_incident\<close> returns the registered id and leaves the whole
  state as it was: no row is added, no row is changed, the dictionary is the same; so does
  any number of firings in a row. Starting from a state where the key is not registered
  and the store accepts the new row, any number of firings in a row add exactly one row
  and all return its id.
\<close>

theorem process_incident_idempotent:
  "(map_of (active_incidents st) (incident_key ev d) = Some n \<longrightarrow>
      process_incident ev st d = (Inr n, st) \<and> fire ev st d k = (replicate k (Inr n), st))
   \<and> (map_of (active_incidents st) (incident_key ev d) = None \<and> \<not> db_raises ev (db_calls st) \<longrightarrow>
      fst (fire ev st d (Suc k)) = replicate (Suc k) (Inr (new_id (rows st)))
      \<and> (\<exists>row. rows (snd (fire ev st d (Suc k))) = rows st @ [row]
                \<and> incident_id row = new_id (rows st)))"
proof (intro conjI impI)
  assume "map_of (active_incidents st) (incident_key ev d) = Some n"
  then show "process_incident ev st d = (Inr n, st)"
    by (simp add: process_incident_def)
next
  assume "map_of (active_incidents st) (incident_key ev d) = Some n"
  then show "fire ev st d k = (replicate k (Inr n), st)"
    by (rule fire_registered)
next
  assume a: "map_of (active_incidents st) (incident_key ev d) = None \<and> \<not> db_raises ev (db_calls st)"
  then obtain row st1 where p: "process_incident ev st d = (Inr (new_id (rows st)), st1)"
    and r: "rows st1 = rows st @ [row]" "incident_id row = new_id (rows st)"
    and i: "active_incidents st1 =
               AList.update (incident_key ev d) (new_id (rows st)) (active_incidents st)"
    using process_incident_opens [of st ev d] by blast
  from i have "map_of (active_incidents st1) (incident_key ev d) = Some (new_id (rows st))"
    by (simp add: update_conv')
  then have f: "fire ev st1 d k = (replicate k (Inr (new_id (rows st))), st1)"
    by (rule fire_registered)
  from p f show "fst (fire ev st d (Suc k)) = replicate (Suc k) (Inr (new_id (rows st)))"
    by simp
  from p f r show "\<exists>row. rows (snd (fire ev st d (Suc k))) = rows st @ [row]
                \<and> incident_id row = new_id (rows st)"
    by simp
qed

theorem process_incident_idempotent_witness:
  "fire example_env (snd (process_incident example_env empty_state wlan0_outage)) wlan0_outage
     (Suc (Suc (Suc 0))) =
     ([Inr 1, Inr 1, Inr 1], snd (process_incident example_env empty_state wlan0_outage))
   \<and> fst (fire example_env empty_state wlan0_outage (Suc (Suc (Suc 0)))) = [Inr 1, Inr 1, Inr 1]
   \<and> length (rows (snd (fire example_env empty_state wlan0_outage (Suc (Suc (Suc 0)))))) = 1"
proof -
  let ?st = "snd (process_incident example_env empty_state wlan0_outage)"
  have absent: "map_of (active_incidents empty_state) (incident_key example_env wlan0_outage) = None"
    and ok: "\<not> db_raises example_env (db_calls empty_state)"
    by (simp_all add: empty_state_def example_env_def)
  have registered: "map_of (active_incidents ?st) (incident_key example_env wlan0_outage) = Some 1"
    by (simp add: process_incident_def add_incident_def datetime_utcnow_def db_call_def
        empty_state_def example_env_def new_id_def Let_def)
  have fresh: "new_id (rows empty_state) = 1"
    by (simp add: new_id_def empty_state_def)
  from process_incident_idempotent [of ?st example_env wlan0_outage 1 "Suc (Suc (Suc 0))"]
    registered
  have a: "fire example_env ?st wlan0_outage (Suc (Suc (Suc 0))) = ([Inr 1, Inr 1, Inr 1], ?st)"
    by simp
  from process_incident_idempotent [of empty_state example_env wlan0_outage 1 "Suc (Suc 0)"]
    absent ok fresh
  have b: "fst (fire example_env empty_state wlan0_outage (Suc (Suc (Suc 0)))) =
             [Inr 1, Inr 1, Inr 1]"
    and c: "\<exists>row. rows (snd (fire example_env empty_state wlan0_outage (Suc (Suc (Suc 0))))) =
                  rows empty_state @ [row] \<and> incident_id row = 1"
    by simp_all
  from c have "length (rows (snd (fire example_env empty_state wlan0_outage
      (Suc (Suc (Suc 0)))))) = 1"
    by (auto simp add: empty_state_def)
  with a b show ?thesis by simp
qed







lemma incident_id_foldl_setattr [simp]:
  "incident_id (foldl setattr r kwargs) = incident_id r"
proof (induction kwargs arbitrary: r)
  case Nil
  show ?case by simp
next
  case (Cons a kwargs)
  show ?case by (cases a) (simp_all add: Cons.IH)
qed

lemma update_first_map:
  "distinct (map incident_id rs) \<Longrightarrow>
   update_first n kwargs rs =
     map (\<lambda>x. if incident_id x = n then foldl setattr x kwargs else x) rs"
proof (induction rs)
  case Nil
  show ?case by simp
next
  case (Cons r rs)
  then have d: "distinct (map incident_id rs)" and notin: "incident_id r \<notin> incident_id ` set rs"
    by simp_all
  show ?case
  proof (cases "incident_id r = n")
    case True
    with notin have "\<forall>x\<in>set rs. incident_id x \<noteq> n" by (auto simp: image_iff)
    then have "map (\<lambda>x. if incident_id x = n then foldl setattr x kwargs else x) rs = rs"
      by (simp add: map_idI)
    with True show ?thesis by simp
  next
    case False
    with Cons.IH [OF d] show ?thesis by simp
  qed
qed

lemma find_unresolved:
  assumes "distinct (map incident_id rs)" and "r \<in> set rs" and "incident_id r = n"
    and "\<not> is_resolved r"
  shows "find (\<lambda>i. incident_id i = n) (filter (\<lambda>x. \<not> is_resolved x) rs) = Some r"
    and "find (\<lambda>i. incident_id i = n) rs = Some r"
  using assms
proof (induction rs)
  case Nil
  { case 1 then show ?case by simp }
  { case 2 then show ?case by simp }
next
  case (Cons a rs)
  { case 1 then show ?case using Cons.IH(1) by (auto simp: image_iff) }
  { case 2 then show ?case using Cons.IH(2) by (auto simp: image_iff) }
qed

lemma consistent_iff:
  "consistent st \<longleftrightarrow>
     distinct (map incident_id (rows st))
     \<and> distinct (map fst (active_incidents st))
     \<and> distinct (map snd (active_incidents st))
     \<and> (\<forall>(k, i) \<in> set (active_incidents st).
           \<exists>r \<in> set (rows st). incident_id r = i \<and> \<not> is_resolved r)"
  by (auto simp add: consistent_def list_all_iff list_ex_iff)

lemma same_id_same_row:
  assumes "distinct (map incident_id rs)" and "x \<in> set rs" and "y \<in> set rs"
    and "incident_id x = incident_id y"
  shows "x = y"
  using assms by (auto simp add: distinct_map dest: inj_onD)

lemma resolve_incident_unregistered:
  "map_of (active_incidents st) key = None \<Longrightarrow> resolve_incident ev st key = (Inr (), st)"
  by (simp add: resolve_incident_def)

lemma resolve_incident_raises:
  assumes "resolve_incident ev st key = (Inl e, st1)"
  shows "rows st1 = rows st" and "active_incidents st1 = active_incidents st"
    and "clock_reads st1 = Suc (clock_reads st)"
  using assms
  by (auto simp add: resolve_incident_def get_active_incidents_def update_incident_def
      datetime_utcnow_def db_call_def Let_def split: option.splits if_splits)

lemma foldl_setattr_close:
  "foldl setattr x [End_time e, Duration_seconds (py_int (total_seconds (e - start_time x))),
      Is_resolved True] = close_row e x"
  by (simp add: close_row_def)

lemma resolve_incident_closes:
  assumes c: "consistent st" and reg: "map_of (active_incidents st) key = Some n"
    and res: "resolve_incident ev st key = (Inr u, st1)"
  shows "rows st1 =
           map (\<lambda>x. if incident_id x = n then close_row (utcnow ev (clock_reads st)) x else x)
             (rows st)"
    and "active_incidents st1 = AList.delete key (active_incidents st)"
    and "clock_reads st1 = Suc (clock_reads st)"
proof -
  let ?e = "utcnow ev (clock_reads st)"
  from reg have "(key, n) \<in> set (active_incidents st)" by (rule map_of_SomeD)
  with c obtain r where r: "r \<in> set (rows st)" "incident_id r = n" "\<not> is_resolved r"
    by (auto simp add: consistent_iff)
  from c have d: "distinct (map incident_id (rows st))" by (simp add: consistent_iff)
  note f = find_unresolved [OF d r]
  let ?kw = "[End_time ?e, Duration_seconds (py_int (total_seconds (?e - start_time r))),
      Is_resolved True]"
  have m: "map (\<lambda>x. if incident_id x = n then foldl setattr x ?kw else x) (rows st) =
        map (\<lambda>x. if incident_id x = n then close_row ?e x else x) (rows st)"
  proof (rule map_cong [OF refl])
    fix x assume x: "x \<in> set (rows st)"
    show "(if incident_id x = n then foldl setattr x ?kw else x) =
          (if incident_id x = n then close_row ?e x else x)"
    proof (cases "incident_id x = n")
      case True
      with same_id_same_row [OF d x r(1)] r(2) have "x = r" by simp
      then show ?thesis by (simp add: close_row_def)
    next
      case False
      then show ?thesis by simp
    qed
  qed
  from res reg f show "rows st1 =
      map (\<lambda>x. if incident_id x = n then close_row ?e x else x) (rows st)"
    by (auto simp add: resolve_incident_def get_active_incidents_def update_incident_def
      datetime_utcnow_def db_call_def Let_def update_first_map [OF d] m [symmetric]
      split: if_splits)
  from res reg f show "active_incidents st1 = AList.delete key (active_incidents st)"
    by (auto simp add: resolve_incident_def get_active_incidents_def update_incident_def
      datetime_utcnow_def db_call_def Let_def split: if_splits)
  from res reg f show "clock_reads st1 = Suc (clock_reads st)"
    by (auto simp add: resolve_incident_def get_active_incidents_def update_incident_def
      datetime_utcnow_def db_call_def Let_def split: if_splits)
qed

lemma new_id_fresh: "new_id rs \<notin> incident_id ` set rs"
proof (cases "rs = []")
  case True
  then show ?thesis by simp
next
  case False
  have "\<forall>x \<in> incident_id ` set rs. x \<le> Max (incident_id ` set rs)"
    by simp
  then have "\<forall>x \<in> incident_id ` set rs. x < new_id rs"
    using False by (auto simp add: new_id_def)
  then show ?thesis by blast
qed

lemma update_absent:
  "k \<notin> fst ` set al \<Longrightarrow> AList.update k v al = al @ [(k, v)]"
  by (induction al) auto

lemma process_incident_cases:
  obtains (registered) n where "map_of (active_incidents st) (incident_key ev d) = Some n"
      "process_incident ev st d = (Inr n, st)"
  | (raises) "map_of (active_incidents st) (incident_key ev d) = None"
      "process_incident ev st d =
         (Inl StoreError, st\<lparr>clock_reads := Suc (clock_reads st), db_calls := Suc (db_calls st)\<rparr>)"
  | (opens) row st1 where "map_of (active_incidents st) (incident_key ev d) = None"
      "process_incident ev st d = (Inr (new_id (rows st)), st1)"
      "rows st1 = rows st @ [row]" "incident_id row = new_id (rows st)" "\<not> is_resolved row"
      "start_time row = utcnow ev (clock_reads st)"
      "end_time row = None" "duration_seconds row = None"
      "active_incidents st1 = active_incidents st @ [(incident_key ev d, new_id (rows st))]"
      "clock_reads st1 = Suc (clock_reads st)"
proof (cases "map_of (active_incidents st) (incident_key ev d)")
  case (Some n)
  then have "process_incident ev st d = (Inr n, st)" by (simp add: process_incident_def)
  with Some show ?thesis by (rule registered)
next
  case None
  show ?thesis
  proof (cases "db_raises ev (db_calls st)")
    case True
    from None process_incident_add_raises [OF None True] show ?thesis by (rule raises)
  next
    case False
    from None have "incident_key ev d \<notin> fst ` set (active_incidents st)"
      by (simp add: map_of_eq_None_iff)
    then have u: "AList.update (incident_key ev d) (new_id (rows st)) (active_incidents st) =
        active_incidents st @ [(incident_key ev d, new_id (rows st))]"
      by (rule update_absent)
    from process_incident_opens [OF None False] obtain row st1 where
      "process_incident ev st d = (Inr (new_id (rows st)), st1)"
      "rows st1 = rows st @ [row]" "incident_id row = new_id (rows st)" "\<not> is_resolved row"
      "start_time row = utcnow ev (clock_reads st)"
      "end_time row = None" "duration_seconds row = None"
      "active_incidents st1 = active_incidents st @ [(incident_key ev d, new_id (rows st))]"
      "clock_reads st1 = Suc (clock_reads st)"
      unfolding u by blast
    with None show ?thesis by (rule opens)
  qed
qed

lemma registered_ids:
  assumes "consistent st"
  shows "snd ` set (active_incidents st) \<subseteq> incident_id ` set (rows st)"
  using assms by (force simp add: consistent_iff)

lemma consistent_process_incident:
  assumes c: "consistent st"
  shows "consistent (snd (process_incident ev st d))"
proof (cases rule: process_incident_cases [of st ev d])
  case (registered n)
  with c show ?thesis by simp
next
  case raises
  with c show ?thesis by (simp add: consistent_def)
next
  case (opens row st1)
  have fresh: "new_id (rows st) \<notin> incident_id ` set (rows st)" by (rule new_id_fresh)
  with registered_ids [OF c] have fresh': "new_id (rows st) \<notin> snd ` set (active_incidents st)"
    by blast
  from opens(1) have k: "incident_key ev d \<notin> fst ` set (active_incidents st)"
    by (simp add: map_of_eq_None_iff)
  from c fresh fresh' k opens show ?thesis
    by (auto simp add: consistent_iff)
qed

lemma other_key_other_id:
  assumes "distinct (map snd al)" and "(k, n) \<in> set al" and "(k', i) \<in> set al" and "k' \<noteq> k"
  shows "i \<noteq> n"
proof
  assume "i = n"
  from assms(1) have "inj_on snd (set al)" by (simp add: distinct_map)
  from inj_onD [OF this, of "(k, n)" "(k', i)"] assms(2,3) \<open>i = n\<close> have "k = k'" by simp
  with assms(4) show False by simp
qed

lemma incident_id_close_row [simp]: "incident_id (close_row e x) = incident_id x"
  by (simp add: close_row_def)

lemma start_time_close_row [simp]: "start_time (close_row e x) = start_time x"
  by (simp add: close_row_def)

lemma set_delete: "set (AList.delete k al) = {p \<in> set al. fst p \<noteq> k}"
  by (auto simp add: AList.delete_eq)

lemma consistent_resolve_incident:
  assumes c: "consistent st"
  shows "consistent (snd (resolve_incident ev st key))"
proof (cases "map_of (active_incidents st) key")
  case None
  with c show ?thesis by (simp add: resolve_incident_unregistered)
next
  case (Some n)
  obtain res st1 where r: "resolve_incident ev st key = (res, st1)" by (cases "resolve_incident ev st key")
  show ?thesis
  proof (cases res)
    case (Inl e)
    with r resolve_incident_raises [of ev st key e st1] c show ?thesis
      by (simp add: consistent_def)
  next
    case (Inr u)
    let ?g = "\<lambda>x. if incident_id x = n then close_row (utcnow ev (clock_reads st)) x else x"
    from r Inr resolve_incident_closes [OF c Some, of ev u st1]
    have rows: "rows st1 = map ?g (rows st)"
      and idx: "active_incidents st1 = AList.delete key (active_incidents st)"
      by simp_all
    have ids: "map incident_id (rows st1) = map incident_id (rows st)"
      by (simp add: rows)
    from Some have kn: "(key, n) \<in> set (active_incidents st)" by (rule map_of_SomeD)
    have open_rows: "\<exists>r \<in> set (rows st1). incident_id r = i \<and> \<not> is_resolved r"
      if "(k, i) \<in> set (active_incidents st1)" for k i
    proof -
      from that idx have ki: "(k, i) \<in> set (active_incidents st)" and "k \<noteq> key"
        by (auto simp add: set_delete)
      from c have "distinct (map snd (active_incidents st))" by (simp add: consistent_iff)
      from other_key_other_id [OF this kn ki \<open>k \<noteq> key\<close>] have "i \<noteq> n" .
      from c ki obtain r where "r \<in> set (rows st)" "incident_id r = i" "\<not> is_resolved r"
        by (auto simp add: consistent_iff)
      with \<open>i \<noteq> n\<close> have "?g r \<in> set (rows st1)" "incident_id (?g r) = i" "\<not> is_resolved (?g r)"
        by (auto simp add: rows)
      then show ?thesis by blast
    qed
    from c have "distinct (map fst (active_incidents st1))" "distinct (map snd (active_incidents st1))"
      by (simp_all add: idx consistent_iff distinct_delete AList.delete_eq distinct_map_filter)
    with c ids open_rows r show ?thesis
      by (auto simp add: consistent_iff)
  qed
qed













lemma cleanup_old_data_effect:
  assumes "cleanup_old_data ev st days = (res, st1)"
  shows "active_incidents st1 = active_incidents st"
    and "clock_reads st1 = Suc (clock_reads st)"
    and "rows st1 = rows st \<or>
         rows st1 = filter (\<lambda>r. \<not> start_time r < utcnow ev (clock_reads st) - days * 86400000000)
                      (rows st)"
  using assms
  by (auto simp add: cleanup_old_data_def datetime_utcnow_def db_call_def Let_def
      split: if_splits)

lemma consistent_cleanup_old_data:
  assumes c: "consistent st" and s: "spares_open ev st (Cleanup_old_data days)"
  shows "consistent (snd (cleanup_old_data ev st days))"
proof -
  obtain res st1 where r: "cleanup_old_data ev st days = (res, st1)"
    by (cases "cleanup_old_data ev st days")
  let ?keep = "\<lambda>r. \<not> start_time r < utcnow ev (clock_reads st) - days * 86400000000"
  note e = cleanup_old_data_effect [OF r]
  from e(3) show ?thesis
  proof
    assume "rows st1 = rows st"
    with c e(1) r show ?thesis by (simp add: consistent_def)
  next
    assume rows: "rows st1 = filter ?keep (rows st)"
    have kept: "\<exists>x \<in> set (rows st1). incident_id x = i \<and> \<not> is_resolved x"
      if "(k, i) \<in> set (active_incidents st1)" for k i
    proof -
      from that e(1) have ki: "(k, i) \<in> set (active_incidents st)" by simp
      with c obtain x where x: "x \<in> set (rows st)" "incident_id x = i" "\<not> is_resolved x"
        by (auto simp add: consistent_iff)
      from ki x(2) have "incident_id x \<in> snd ` set (active_incidents st)" by force
      with s x(1) have "?keep x" by (simp add: list_all_iff)
      with x rows show ?thesis by auto
    qed
    from c rows have "distinct (map incident_id (rows st1))"
      by (simp add: consistent_iff distinct_map_filter)
    with c e(1) kept r show ?thesis by (auto simp add: consistent_iff)
  qed
qed



lemma resolve_each_preserves:
  assumes step: "\<And>st k. P st \<Longrightarrow> P (snd (resolve_incident ev st k))" and "P st"
  shows "P (snd (resolve_each ev st ks))"
  using \<open>P st\<close>
proof (induction ks arbitrary: st)
  case Nil
  then show ?case by simp
next
  case (Cons k ks)
  obtain res st1 where r: "resolve_incident ev st k = (res, st1)"
    by (cases "resolve_incident ev st k")
  from step [OF Cons.prems, of k] r have p1: "P st1" by simp
  show ?case
  proof (cases res)
    case (Inl e)
    with r p1 show ?thesis by simp
  next
    case (Inr u)
    with r Cons.IH [OF p1] show ?thesis by simp
  qed
qed

lemma do_call_preserves:
  assumes "\<And>st d. P st \<Longrightarrow> P (snd (process_incident ev st d))"
    and "\<And>st k. P st \<Longrightarrow> P (snd (resolve_incident ev st k))"
    and "\<And>st days. P st \<Longrightarrow> spares_open ev st (Cleanup_old_data days) \<Longrightarrow>
           P (snd (cleanup_old_data ev st days))"
    and "P st" and "spares_open ev st c"
  shows "P (do_call ev st c)"
proof (cases c)
  case (Process_incident d)
  with assms(1) [OF assms(4)] show ?thesis by simp
next
  case (Resolve_incident k)
  with assms(2) [OF assms(4)] show ?thesis by simp
next
  case (Check_and_resolve_incidents cs)
  with resolve_each_preserves [of P ev st, OF assms(2) assms(4)] show ?thesis
    by (simp add: check_and_resolve_incidents_def)
next
  case (Cleanup_old_data days)
  with assms(3) [OF assms(4)] assms(5) show ?thesis by simp
qed

lemma run_preserves:
  assumes "\<And>st d. P st \<Longrightarrow> P (snd (process_incident ev st d))"
    and "\<And>st k. P st \<Longrightarrow> P (snd (resolve_incident ev st k))"
    and "\<And>st days. P st \<Longrightarrow> spares_open ev st (Cleanup_old_data days) \<Longrightarrow>
           P (snd (cleanup_old_data ev st days))"
    and "P st" and "cleanups_spare_open ev st calls"
  shows "P (run ev st calls)"
  using \<open>P st\<close> \<open>cleanups_spare_open ev st calls\<close>
proof (induction calls arbitrary: st)
  case Nil
  then show ?case by simp
next
  case (Cons c calls)
  from Cons.prems(2) have s: "spares_open ev st c"
    and rest: "cleanups_spare_open ev (do_call ev st c) calls"
    by simp_all
  from do_call_preserves [of P ev st c, OF assms(1) assms(2) assms(3) Cons.prems(1) s]
  have "P (do_call ev st c)" .
  from Cons.IH [OF this rest] show ?case by simp
qed

lemma consistent_run:
  "consistent st \<Longrightarrow> cleanups_spare_open ev st calls \<Longrightarrow> consistent (run ev st calls)"
  by (rule run_preserves [of consistent])
    (simp_all add: consistent_process_incident consistent_resolve_incident
      consistent_cleanup_old_data)






lemma empty_state_fields:
  "rows empty_state = []" "active_incidents empty_state = []"
  "clock_reads empty_state = 0" "db_calls empty_state = 0"
  by (simp_all add: empty_state_def)

lemma consistent_empty_state: "consistent empty_state"
  by (simp add: consistent_def empty_state_fields)





lemma key_week:
  "incident_key week_env wlan0_outage = incident_key example_env wlan0_outage"
  "incident_key week_env wlan0_degradation = incident_key example_env wlan0_degradation"
  by (simp_all add: incident_key_def week_env_def example_env_def)

lemma week_env_fields:
  "db_raises week_env n = False" "json_dumps week_env = example_dumps"
  "utcnow week_env n = int n * 10000000 + (if 3 \<le> n then 691200000000 else 0)"
  by (simp_all add: week_env_def example_env_def)

lemma str_int_weak: "str_int (- 90) = ''-90''"
  by code_simp

lemma week_state_value:
  "week_state =
     \<lparr> rows = [\<lparr> incident_id = 1, start_time = 691280000000, end_time = None,
                 duration_seconds = None, incident_type = ''wifi_degradation'',
                 severity = ''warning'', affected_targets = example_dumps [''wlan0''],
                 description = ''WiFi signal weak: -90 dBm'',
                 probable_cause = None, is_resolved = False \<rparr>],
       active_incidents =
         [(incident_key example_env wlan0_outage, 1),
          (incident_key example_env wlan0_degradation, 1)],
       clock_reads = 10, db_calls = 6 \<rparr>"
  by (simp add: week_state_def monitor_wifi_iteration_def monitor_wifi_body_def
      add_wifi_metric_def check_wifi_status_def truthy_def str_int_weak
      example_monitor_def example_env_def example_config_def empty_state_def
      wlan0_down_def wlan0_weak_def wlan0_outage_def wlan0_degradation_def
      week_env_fields process_incident_def incident_key_def add_incident_def
      cleanup_old_data_def datetime_utcnow_def db_call_def new_id_def total_seconds_def
      Let_def)




lemma resolve_incident_index:
  assumes "resolve_incident ev st k = (Inr u, st1)"
  shows "active_incidents st1 = AList.delete k (active_incidents st)"
proof (cases "map_of (active_incidents st) k")
  case None
  then have "k \<notin> fst ` set (active_incidents st)" by (simp add: map_of_eq_None_iff)
  then have "AList.delete k (active_incidents st) = active_incidents st"
    by (rule delete_id)
  with None assms show ?thesis by (simp add: resolve_incident_unregistered)
next
  case (Some n)
  with assms show ?thesis
    by (auto simp add: resolve_incident_def get_active_incidents_def update_incident_def
      datetime_utcnow_def db_call_def Let_def split: if_splits option.splits)
qed

lemma resolve_each_index:
  assumes "resolve_each ev st ks = (Inr u, st')"
  shows "active_incidents st' = filter (\<lambda>(k, i). k \<notin> set ks) (active_incidents st)"
  using assms
proof (induction ks arbitrary: st)
  case Nil
  then show ?case by simp
next
  case (Cons k ks)
  obtain res st1 where r: "resolve_incident ev st k = (res, st1)"
    by (cases "resolve_incident ev st k")
  with Cons.prems obtain v where v: "res = Inr v" and rest: "resolve_each ev st1 ks = (Inr u, st')"
    by (cases res) simp_all
  from r v have "active_incidents st1 = AList.delete k (active_incidents st)"
    by (simp add: resolve_incident_index)
  with Cons.IH [OF rest] show ?case
    by (auto simp add: AList.delete_eq intro: filter_cong)
qed

lemma check_and_resolve_index:
  assumes "check_and_resolve_incidents ev st cs = (Inr u, st')"
  shows "active_incidents st' = filter (\<lambda>(k, i). still_active cs k) (active_incidents st)"
proof -
  let ?ks = "filter (\<lambda>k. case cs k of None \<Rightarrow> True | Some b \<Rightarrow> \<not> b)
          (map fst (active_incidents st))"
  from assms have "resolve_each ev st ?ks = (Inr u, st')"
    by (simp add: check_and_resolve_incidents_def)
  then have "active_incidents st' = filter (\<lambda>(k, i). k \<notin> set ?ks) (active_incidents st)"
    by (rule resolve_each_index)
  also have "\<dots> = filter (\<lambda>(k, i). still_active cs k) (active_incidents st)"
    by (rule filter_cong) (auto simp add: still_active_def image_iff split: option.splits)
  finally show ?thesis .
qed

lemma resolve_each_rows:
  assumes "consistent st" and "resolve_each ev st ks = (Inr u, st')"
  shows "list_all2
           (\<lambda>r r'. if incident_id r \<in> snd ` {p \<in> set (active_incidents st). fst p \<in> set ks}
                    then closed_from r r' else r' = r)
           (rows st) (rows st')"
  using assms
proof (induction ks arbitrary: st)
  case Nil
  then show ?case by (simp add: list_all2_same)
next
  case (Cons k ks)
  let ?ids = "\<lambda>s ks. snd ` {p \<in> set (active_incidents s). fst p \<in> set ks}"
  obtain res st1 where r: "resolve_incident ev st k = (res, st1)"
    by (cases "resolve_incident ev st k")
  with Cons.prems obtain v where v: "res = Inr v" and rest: "resolve_each ev st1 ks = (Inr u, st')"
    by (cases res) simp_all
  from consistent_resolve_incident [OF Cons.prems(1), of ev k] r
  have c1: "consistent st1" by simp
  note ih = Cons.IH [OF c1 rest]
  show ?case
  proof (cases "map_of (active_incidents st) k")
    case None
    with r have "st1 = st" by (simp add: resolve_incident_unregistered)
    moreover from None have "k \<notin> fst ` set (active_incidents st)"
      by (simp add: map_of_eq_None_iff)
    then have "?ids st (k # ks) = ?ids st ks" by (auto simp add: image_iff)
    ultimately show ?thesis using ih by simp
  next
    case (Some n)
    let ?g = "\<lambda>x. if incident_id x = n then close_row (utcnow ev (clock_reads st)) x else x"
    from r v resolve_incident_closes [OF Cons.prems(1) Some, of ev v st1]
    have rows: "rows st1 = map ?g (rows st)"
      and idx: "active_incidents st1 = AList.delete k (active_incidents st)"
      by simp_all
    from Some have kn: "(k, n) \<in> set (active_incidents st)" by (rule map_of_SomeD)
    from Cons.prems(1) have dk: "distinct (map fst (active_incidents st))"
      and ds: "distinct (map snd (active_incidents st))"
      by (simp_all add: consistent_iff)
    have only_n: "i = n" if "(k, i) \<in> set (active_incidents st)" for i
      using dk kn that by (metis Some map_of_is_SomeI option.inject)
    have n_not_later: "n \<notin> ?ids st1 ks"
    proof
      assume "n \<in> ?ids st1 ks"
      then obtain k' where "(k', n) \<in> set (active_incidents st)" "k' \<noteq> k"
        by (auto simp add: idx set_delete)
      from other_key_other_id [OF ds kn this] show False by simp
    qed
    have ids: "?ids st (k # ks) = insert n (?ids st1 ks)"
    proof (rule set_eqI)
      fix i
      show "i \<in> ?ids st (k # ks) \<longleftrightarrow> i \<in> insert n (?ids st1 ks)"
      proof
        assume "i \<in> ?ids st (k # ks)"
        then obtain k' where k': "(k', i) \<in> set (active_incidents st)" "k' = k \<or> k' \<in> set ks"
          by auto
        show "i \<in> insert n (?ids st1 ks)"
        proof (cases "k' = k")
          case True
          with k' only_n show ?thesis by simp
        next
          case False
          with k' have "(k', i) \<in> set (active_incidents st1)" "k' \<in> set ks"
            by (simp_all add: idx set_delete)
          then show ?thesis by force
        qed
      next
        assume "i \<in> insert n (?ids st1 ks)"
        then show "i \<in> ?ids st (k # ks)"
        proof
          assume "i = n"
          with kn show ?thesis by force
        next
          assume "i \<in> ?ids st1 ks"
          then show ?thesis by (force simp add: idx set_delete)
        qed
      qed
    qed
    from ih have "list_all2
        (\<lambda>r r'. if incident_id (?g r) \<in> ?ids st1 ks then closed_from (?g r) r' else r' = ?g r)
        (rows st) (rows st')"
      by (simp add: rows list_all2_map1)
    then show ?thesis
    proof (rule list_all2_mono)
      fix r r'
      assume h: "if incident_id (?g r) \<in> ?ids st1 ks then closed_from (?g r) r' else r' = ?g r"
      show "if incident_id r \<in> ?ids st (k # ks) then closed_from r r' else r' = r"
      proof (cases "incident_id r = n")
        case True
        with h n_not_later have "r' = close_row (utcnow ev (clock_reads st)) r" by simp
        with True ids show ?thesis by (auto simp add: closed_from_def)
      next
        case False
        with h ids show ?thesis by (simp split: if_splits)
      qed
    qed
  qed
qed

lemma stale_iff:
  "(case cs k of None \<Rightarrow> True | Some b \<Rightarrow> \<not> b) \<longleftrightarrow> \<not> still_active cs k"
  by (cases "cs k") (auto simp add: still_active_def)

lemma stale_ids_eq:
  "stale_ids st cs =
     snd ` {p \<in> set (active_incidents st).
              fst p \<in> set (filter (\<lambda>k. case cs k of None \<Rightarrow> True | Some b \<Rightarrow> \<not> b)
                             (map fst (active_incidents st)))}"
proof -
  have "set (filter (\<lambda>(k, i). \<not> still_active cs k) (active_incidents st)) =
      {p \<in> set (active_incidents st).
         fst p \<in> set (filter (\<lambda>k. case cs k of None \<Rightarrow> True | Some b \<Rightarrow> \<not> b)
                        (map fst (active_incidents st)))}"
    by (auto simp add: stale_iff)
  then show ?thesis by (simp only: stale_ids_def)
qed

text \<open>
  C5 (as amended). Reconcile clears exactly the stale set. When
  \<open>check_and_resolve_incidents\<close> returns normally, the dictionary is what it was, restricted
  to the keys the caller marks as still active. From a consistent state the state stays
  consistent (every remaining key is the key of an unresolved row), every row whose id was
  registered under a stale key is closed (resolved, with end time and duration), and every
  other row is as it was.
\<close>

theorem check_and_resolve_clears_stale:
  assumes "check_and_resolve_incidents ev st cs = (Inr u, st')"
  shows "active_incidents st' = filter (\<lambda>(k, i). still_active cs k) (active_incidents st)
       \<and> (consistent st \<longrightarrow>
            consistent st'
            \<and> list_all2
                (\<lambda>r r'. if incident_id r \<in> stale_ids st cs then closed_from r r' else r' = r)
                (rows st) (rows st'))"
proof (intro conjI impI)
  from assms show "active_incidents st' =
      filter (\<lambda>(k, i). still_active cs k) (active_incidents st)"
    by (rule check_and_resolve_index)
next
  assume c: "consistent st"
  let ?ks = "filter (\<lambda>k. case cs k of None \<Rightarrow> True | Some b \<Rightarrow> \<not> b)
      (map fst (active_incidents st))"
  have "consistent (snd (resolve_each ev st ?ks))"
    by (rule resolve_each_preserves [of consistent]) (simp_all add: consistent_resolve_incident c)
  with assms show "consistent st'"
    by (simp add: check_and_resolve_incidents_def)
next
  assume c: "consistent st"
  from assms have "resolve_each ev st
      (filter (\<lambda>k. case cs k of None \<Rightarrow> True | Some b \<Rightarrow> \<not> b) (map fst (active_incidents st))) =
      (Inr u, st')"
    by (simp add: check_and_resolve_incidents_def)
  from resolve_each_rows [OF c this]
  show "list_all2
      (\<lambda>r r'. if incident_id r \<in> stale_ids st cs then closed_from r r' else r' = r)
      (rows st) (rows st')"
    by (simp only: stale_ids_eq)
qed


lemma three_open_value:
  "three_open =
     \<lparr> rows = map (\<lambda>(n, t, s).
          \<lparr> incident_id = n, start_time = s, end_time = None, duration_seconds = None,
            incident_type = ''sensor_outage'', severity = ''warning'',
            affected_targets = example_dumps [t], description = ''Sensor unavailable'',
            probable_cause = None, is_resolved = False \<rparr>)
          [(1, ''A'', 0), (2, ''B'', 1000000), (3, ''C'', 2000000)],
       active_incidents =
         [(incident_key example_env (outage_of ''A''), 1),
          (incident_key example_env (outage_of ''B''), 2),
          (incident_key example_env (outage_of ''C''), 3)],
       clock_reads = 3, db_calls = 3 \<rparr>"
  by (simp add: three_open_def example_env_def empty_state_def outage_of_def
      process_incident_def incident_key_def add_incident_def datetime_utcnow_def
      db_call_def new_id_def example_dumps_def Let_def)


lemma reconciled_value:
  "check_and_resolve_incidents example_env three_open only_B =
     (Inr (),
      \<lparr> rows = map (\<lambda>(n, t, s, e, d, res).
          \<lparr> incident_id = n, start_time = s, end_time = e, duration_seconds = d,
            incident_type = ''sensor_outage'', severity = ''warning'',
            affected_targets = example_dumps [t], description = ''Sensor unavailable'',
            probable_cause = None, is_resolved = res \<rparr>)
          [(1, ''A'', 0, Some 3000000, Some 3, True),
           (2, ''B'', 1000000, None, None, False),
           (3, ''C'', 2000000, Some 4000000, Some 2, True)],
        active_incidents = [(incident_key example_env (outage_of ''B''), 2)],
        clock_reads = 5, db_calls = 7 \<rparr>)"
  by (simp add: three_open_value only_B_def check_and_resolve_incidents_def
      resolve_incident_def get_active_incidents_def update_incident_def datetime_utcnow_def
      db_call_def incident_key_def outage_of_def example_env_def example_dumps_def
      total_seconds_def py_int_def Let_def)

theorem check_and_resolve_clears_stale_witness:
  "fst (check_and_resolve_incidents example_env three_open only_B) = Inr ()
   \<and> consistent three_open
   \<and> map fst (active_incidents three_open) =
       [incident_key example_env (outage_of ''A''), incident_key example_env (outage_of ''B''),
        incident_key example_env (outage_of ''C'')]
   \<and> active_incidents (snd (check_and_resolve_incidents example_env three_open only_B)) =
       filter (\<lambda>(k, i). still_active only_B k) (active_incidents three_open)
   \<and> map fst (active_incidents (snd (check_and_resolve_incidents example_env three_open only_B))) =
       [incident_key example_env (outage_of ''B'')]
   \<and> consistent (snd (check_and_resolve_incidents example_env three_open only_B))
   \<and> list_all2
       (\<lambda>r r'. if incident_id r \<in> stale_ids three_open only_B then closed_from r r' else r' = r)
       (rows three_open)
       (rows (snd (check_and_resolve_incidents example_env three_open only_B)))
   \<and> map is_resolved (rows (snd (check_and_resolve_incidents example_env three_open only_B))) =
       [True, False, True]"
proof -
  let ?st' = "snd (check_and_resolve_incidents example_env three_open only_B)"
  have h: "check_and_resolve_incidents example_env three_open only_B = (Inr (), ?st')"
    by (simp add: reconciled_value)
  have c: "consistent three_open"
    unfolding three_open_def by (rule consistent_run [OF consistent_empty_state]) simp
  have k: "map fst (active_incidents three_open) =
       [incident_key example_env (outage_of ''A''), incident_key example_env (outage_of ''B''),
        incident_key example_env (outage_of ''C'')]"
    by (simp add: three_open_value)
  have k': "map fst (active_incidents ?st') = [incident_key example_env (outage_of ''B'')]"
    by (simp add: reconciled_value)
  have r: "map is_resolved (rows ?st') = [True, False, True]"
    by (simp add: reconciled_value)
  have f: "fst (check_and_resolve_incidents example_env three_open only_B) = Inr ()"
    by (simp add: reconciled_value)
  from check_and_resolve_clears_stale [OF h] c f k k' r show ?thesis
    by simp
qed


lemma only_degradation_value:
  "only_degradation = [incident_key example_env wlan0_degradation \<mapsto> True]"
  by (simp add: only_degradation_def key_week)

text \<open>
  Two ways to a reconciliation that does not clear exactly the stale set. In the state the
  WiFi loop leaves after the cleanup of a week-long outage, the stale key and the live key
  are registered with the same id: the call returns normally, keeps the live key, and
  resolves the incident of the live key. And when the store raises during the call, here
  at its fifth call, the stale keys stay registered.
\<close>

theorem reconcile_counterexample:
  "active_incidents week_state =
     [(incident_key week_env wlan0_outage, 1), (incident_key week_env wlan0_degradation, 1)]
   \<and> map (\<lambda>r. (incident_id r, is_resolved r)) (rows week_state) = [(1, False)]
   \<and> fst (check_and_resolve_incidents week_env week_state only_degradation) = Inr ()
   \<and> active_incidents (snd (check_and_resolve_incidents week_env week_state only_degradation)) =
       [(incident_key week_env wlan0_degradation, 1)]
   \<and> map (\<lambda>r. (incident_id r, is_resolved r))
       (rows (snd (check_and_resolve_incidents week_env week_state only_degradation))) =
       [(1, True)]
   \<and> fst (check_and_resolve_incidents fifth_fails_env three_open only_B) = Inl StoreError
   \<and> active_incidents (snd (check_and_resolve_incidents fifth_fails_env three_open only_B)) =
       active_incidents three_open"
proof -
  have r: "check_and_resolve_incidents week_env week_state only_degradation =
     (Inr (),
      \<lparr> rows = [\<lparr> incident_id = 1, start_time = 691280000000, end_time = Some 691300000000,
                 duration_seconds = Some 20, incident_type = ''wifi_degradation'',
                 severity = ''warning'', affected_targets = example_dumps [''wlan0''],
                 description = ''WiFi signal weak: -90 dBm'',
                 probable_cause = None, is_resolved = True \<rparr>],
        active_incidents = [(incident_key example_env wlan0_degradation, 1)],
        clock_reads = 11, db_calls = 8 \<rparr>)"
    by (simp add: week_state_value only_degradation_value check_and_resolve_incidents_def
      resolve_incident_def get_active_incidents_def update_incident_def datetime_utcnow_def
      db_call_def incident_key_def wlan0_outage_def wlan0_degradation_def week_env_fields
      example_env_def example_dumps_def total_seconds_def py_int_def Let_def)
  have f: "check_and_resolve_incidents fifth_fails_env three_open only_B =
     (Inl StoreError, three_open\<lparr> clock_reads := 4, db_calls := 5 \<rparr>)"
    by (simp add: three_open_value only_B_def check_and_resolve_incidents_def
      resolve_incident_def get_active_incidents_def update_incident_def datetime_utcnow_def
      db_call_def incident_key_def outage_of_def fifth_fails_env_def example_env_def
      example_dumps_def Let_def)
  have r1: "fst (check_and_resolve_incidents week_env week_state only_degradation) = Inr ()"
    and r2: "active_incidents
        (snd (check_and_resolve_incidents week_env week_state only_degradation)) =
        [(incident_key week_env wlan0_degradation, 1)]"
    and r3: "map (\<lambda>r. (incident_id r, is_resolved r))
        (rows (snd (check_and_resolve_incidents week_env week_state only_degradation))) =
        [(1, True)]"
    by (simp_all add: r key_week)
  have f1: "fst (check_and_resolve_incidents fifth_fails_env three_open only_B) = Inl StoreError"
    and f2: "active_incidents
        (snd (check_and_resolve_incidents fifth_fails_env three_open only_B)) =
        active_incidents three_open"
    by (simp_all add: f)
  have w1: "active_incidents week_state =
      [(incident_key week_env wlan0_outage, 1), (incident_key week_env wlan0_degradation, 1)]"
    and w2: "map (\<lambda>r. (incident_id r, is_resolved r)) (rows week_state) = [(1, False)]"
    by (simp_all add: week_state_value key_week)
  from w1 w2 r1 r2 r3 f1 f2 show ?thesis
    by (intro conjI)
qed

section \<open>Concurrent firings\<close>

lemma process_incident_steps:
  "process_incident ev st d =
     (case lookup_incident ev st d of
        Some n \<Rightarrow> (Inr n, st)
      | None \<Rightarrow> open_incident ev st d)"
  by (simp add: process_incident_def lookup_incident_def open_incident_def Let_def
      split: option.splits)

text \<open>
  C9. Mutual exclusion on the same key. \<open>process_incident\<close> is its test followed by its
  opening, with nothing that keeps another thread out in between. When a second thread
  makes its test for the same key while the first is in the store call, both find the key
  unregistered and both open: two unresolved rows for the same key, ids 1 and 2, and the
  dictionary keeps only the second.
\<close>

theorem racing_process_incident_opens_twice:
  "process_incident ev st d =
     (case lookup_incident ev st d of
        Some n \<Rightarrow> (Inr n, st)
      | None \<Rightarrow> open_incident ev st d)
   \<and> fst (racing_process_incident example_env empty_state (outage_of ''cam'') (outage_of ''cam'')) =
       Inr 1
   \<and> fst (snd (racing_process_incident example_env empty_state (outage_of ''cam'')
        (outage_of ''cam''))) = Inr 2
   \<and> map (\<lambda>r. (incident_id r, incident_type r, affected_targets r, is_resolved r))
       (rows (snd (snd (racing_process_incident example_env empty_state (outage_of ''cam'')
          (outage_of ''cam''))))) =
       [(1, ''sensor_outage'', example_dumps [''cam''], False),
        (2, ''sensor_outage'', example_dumps [''cam''], False)]
   \<and> active_incidents (snd (snd (racing_process_incident example_env empty_state
        (outage_of ''cam'') (outage_of ''cam'')))) =
       [(incident_key example_env (outage_of ''cam''), 2)]"
proof -
  have "racing_process_incident example_env empty_state (outage_of ''cam'') (outage_of ''cam'') =
     (Inr 1, Inr 2,
      \<lparr> rows = map (\<lambda>(n, s).
          \<lparr> incident_id = n, start_time = s, end_time = None, duration_seconds = None,
            incident_type = ''sensor_outage'', severity = ''warning'',
            affected_targets = example_dumps [''cam''], description = ''Sensor unavailable'',
            probable_cause = None, is_resolved = False \<rparr>) [(1, 0), (2, 1000000)],
        active_incidents = [(incident_key example_env (outage_of ''cam''), 2)],
        clock_reads = 2, db_calls = 2 \<rparr>)"
    by (simp add: racing_process_incident_def lookup_incident_def open_incident_def
      example_env_def empty_state_def outage_of_def incident_key_def add_incident_def
      datetime_utcnow_def db_call_def new_id_def example_dumps_def Let_def)
  then show ?thesis
    by (simp add: process_incident_steps)
qed

section \<open>Analytics properties\<close>

lemma flapping_rows:
  "rows (run flapping_env empty_state flapping_calls) =
    [\<lparr>incident_id = 1, start_time = 0, end_time = Some 500000, duration_seconds = Some 0,
       incident_type = ''wifi_outage'', severity = ''critical'',
       affected_targets = example_dumps [''wlan0''],
       description = ''WiFi interface wlan0 disconnected'',
       probable_cause = None, is_resolved = True\<rparr>,
     \<lparr>incident_id = 2, start_time = 100000000, end_time = Some 110000000,
       duration_seconds = Some 10,
       incident_type = ''wifi_outage'', severity = ''critical'',
       affected_targets = example_dumps [''wlan0''],
       description = ''WiFi interface wlan0 disconnected'',
       probable_cause = None, is_resolved = True\<rparr>]"
  by (simp add: flapping_calls_def flapping_env_def example_env_def empty_state_def
      wlan0_outage_def process_incident_def resolve_incident_def incident_key_def
      add_incident_def update_incident_def get_active_incidents_def datetime_utcnow_def
      db_call_def new_id_def total_seconds_def py_int_def Let_def)

lemma flapping_env_fields:
  "db_raises flapping_env n = False" "json_loads flapping_env s = None"
  by (simp_all add: flapping_env_def example_env_def)

lemma flapping_query:
  "get_incidents flapping_env (run flapping_env empty_state flapping_calls)
     (Some 0) (Some 3600000000) None =
     (Inr (rows (run flapping_env empty_state flapping_calls)),
      db_call (run flapping_env empty_state flapping_calls))"
  by (simp add: flapping_rows flapping_env_fields get_incidents_def)

text \<open>
  X1. The MTBF of a range with incidents: the length of the range in seconds divided by the
  number of incidents whose start falls in the range.
\<close>

theorem analyze_incident_patterns_mtbf:
  assumes "get_incidents ev st (Some s) (Some e) None = (Inr incidents, st1)"
    and "incidents \<noteq> []"
  shows "map_sum id mtbf_seconds (fst (analyze_incident_patterns ev st s e)) =
           Inr (Some (total_seconds (e - s) / real (length incidents)))"
  using assms by (simp add: analyze_incident_patterns_def Let_def)

theorem analyze_incident_patterns_mtbf_witness:
  "map_sum id mtbf_seconds
     (fst (analyze_incident_patterns flapping_env
        (run flapping_env empty_state flapping_calls) 0 3600000000)) = Inr (Some 1800)"
  using analyze_incident_patterns_mtbf [OF flapping_query]
  by (simp add: flapping_rows total_seconds_def)

lemma durations_analyze_step:
  "durations (analyze_step ev acc i) = durations acc @ counted_durations [i]"
  by (simp add: analyze_step_def counted_durations_def split: option.splits)

lemma counted_durations_Cons:
  "counted_durations (i # incidents) = counted_durations [i] @ counted_durations incidents"
  by (simp add: counted_durations_def)

lemma durations_foldl:
  "durations (foldl (analyze_step ev) acc incidents) =
     durations acc @ counted_durations incidents"
proof (induction incidents arbitrary: acc)
  case Nil
  show ?case by (simp add: counted_durations_def)
next
  case (Cons i incidents)
  have "durations (foldl (analyze_step ev) acc (i # incidents)) =
      durations (analyze_step ev acc i) @ counted_durations incidents"
    by (simp add: Cons.IH)
  also have "\<dots> = durations acc @ counted_durations (i # incidents)"
    by (simp only: durations_analyze_step counted_durations_Cons [of i incidents] append_assoc)
  finally show ?case .
qed

text \<open>
  X2. The duration aggregates as computed: the total is the sum of the durations that are set and not 0
  (which is the sum of all durations that are set), and the average is that total divided
  by the number of durations that are set and not 0, or 0 when there is none.
\<close>

theorem analyze_incident_patterns_durations:
  assumes "get_incidents ev st (Some s) (Some e) None = (Inr incidents, st1)"
  shows "map_sum id total_downtime_seconds (fst (analyze_incident_patterns ev st s e)) =
           Inr (sum_list (counted_durations incidents))
       \<and> map_sum id avg_duration_seconds (fst (analyze_incident_patterns ev st s e)) =
           Inr (if counted_durations incidents = [] then 0
                else real_of_int (sum_list (counted_durations incidents))
                       / real (length (counted_durations incidents)))"
  using assms
  by (simp add: analyze_incident_patterns_def Let_def durations_foldl counted_durations_def)

theorem analyze_incident_patterns_durations_witness:
  "map_sum id total_downtime_seconds
     (fst (analyze_incident_patterns flapping_env
        (run flapping_env empty_state flapping_calls) 0 3600000000)) = Inr 10
   \<and> counted_durations (rows (run flapping_env empty_state flapping_calls)) = [10]"
  using analyze_incident_patterns_durations [OF flapping_query]
  by (simp add: flapping_rows counted_durations_def)

text \<open>
  C3. The MTBF of a range with no incident: the summary returned for an empty query result
  has no \<^verbatim>\<open>mtbf_seconds\<close> entry at all; it is not reported as 0. Here for the range of
  the first hour over an empty table.
\<close>

theorem analyze_incident_patterns_no_incidents:
  "map_sum id mtbf_seconds
     (fst (analyze_incident_patterns example_env empty_state 0 3600000000)) = Inr None"
  by (simp add: analyze_incident_patterns_def get_incidents_def empty_state_def
      example_env_def db_call_def)

text \<open>
  C8. Duration aggregates over resolved incidents. With two resolved incidents in range,
  one closed within the second it opened (duration 0) and one that lasted ten seconds, the
  reported average is 10: the incident of duration 0 is left out of the average, whose
  value over the two resolved incidents is 5.
\<close>

theorem analyze_incident_patterns_zero_duration:
  "map_sum id avg_duration_seconds
     (fst (analyze_incident_patterns flapping_env
        (run flapping_env empty_state flapping_calls) 0 3600000000)) = Inr 10
   \<and> map (\<lambda>r. (is_resolved r, duration_seconds r))
       (rows (run flapping_env empty_state flapping_calls)) =
       [(True, Some 0), (True, Some 10)]"
  by (simp add: flapping_rows flapping_env_fields analyze_incident_patterns_def
      get_incidents_def analyze_step_def tally_def db_call_def Let_def)


end
